theory Spec2Isabelle
  imports Complex_Main "HOL-Library.Word" "HOL-Library.Multiset"
begin

unbundle bit_operations_syntax

section \<open>Result records and the pipeline handle\<close>

text \<open>
  The status a result processor's \<open>Next\<close> returns. \<open>RESULT_QUEUED\<close> is the sorter's
  private value \<open>RS_RESULT_MAX + 1\<close>.
\<close>

datatype RPStatus =
  RS_RESULT_OK | RS_RESULT_PAUSED | RS_RESULT_ERROR | RS_RESULT_EOF | RS_RESULT_TIMEDOUT
  | RESULT_QUEUED

datatype ResultProcessorType =
  RP_INDEX | RP_LOADER | RP_BUFFER_AND_LOCKER | RP_UNLOCKER | RP_SCORER | RP_SORTER
  | RP_COUNTER | RP_PAGER_LIMITER | RP_HIGHLIGHTER | RP_GROUP | RP_PROJECTOR | RP_FILTER
  | RP_PROFILE | RP_NETWORK | RP_METRICS

text \<open>\<open>enum RSTimeoutPolicy\<close> of config.h.\<close>

datatype RSTimeoutPolicy =
  TimeoutPolicy_Default | TimeoutPolicy_Return | TimeoutPolicy_Fail | TimeoutPolicy_Invalid

text \<open>
  The document metadata a record borrows. Only \<open>flags\<close> is read by the processors; the
  mask \<open>Document_Deleted\<close> is declared outside the sources at hand and is a parameter
  (\<open>dd\<close>) of every function that tests it.
\<close>

record RSDocumentMetadata =
  dmd_id :: nat
  flags :: "32 word"

type_synonym RLookupKey = string

type_synonym RSValue = string

text \<open>
  A row: the borrowed sort vector (\<open>sv\<close>, \<open>None\<close> for a null pointer) and the
  dynamically loaded values (\<open>dyn\<close>, \<open>None\<close> for a null array).
\<close>

record RLookupRow =
  sv :: "(RLookupKey \<times> RSValue) list option"
  dyn :: "(RLookupKey \<times> RSValue) list option"

type_synonym RSScoreExplain = "string list"

type_synonym RSIndexResult = nat

text \<open>
  \<open>SearchResult\<close>. Scores are C doubles, read here as reals (no NaN); document ids are
  unsigned and only ever compared, so they are naturals.
\<close>

record SearchResult =
  docId :: nat
  score :: real
  scoreExplain :: "RSScoreExplain option"
  indexResult :: "RSIndexResult option"
  dmd :: "RSDocumentMetadata option"
  rowdata :: RLookupRow

text \<open>
  Modelled from the spec: \<open>RLookupRow_Wipe\<close> (rlookup.c is not among the sources)
  "clears dynamic parts but preserves sort_vector binding".
\<close>

definition RLookupRow_Wipe :: "RLookupRow \<Rightarrow> RLookupRow" where
  "RLookupRow_Wipe r = r\<lparr>dyn := None\<rparr>"

text \<open>
  \<open>SearchResult_Clear\<close>: the score is zeroed, the explanation destroyed, the index-result
  borrow dropped, the row wiped and the metadata returned (\<open>DMD_Return\<close>, whose reference
  count lives in the document table, outside the record).
\<close>

definition SearchResult_Clear :: "SearchResult \<Rightarrow> SearchResult" where
  "SearchResult_Clear r =
     r\<lparr>score := 0, scoreExplain := None, indexResult := None,
       rowdata := RLookupRow_Wipe (rowdata r), dmd := None\<rparr>"

text \<open>
  The pipeline handle (\<open>QueryIterator\<close>, reached as \<open>base->parent\<close>) together with the
  objects the processors reach through it: \<open>endProc\<close> is the address of the chain's end
  processor; \<open>profileCount\<close> is the store of the \<open>RPProfile\<close> objects, by address
  (\<open>profileCount\<close> is a \<open>uint64_t\<close>); \<open>gilUnlocks\<close> counts the calls of
  \<open>RedisModule_ThreadSafeContextUnlock\<close> on \<open>sctx->redisCtx\<close>.
\<close>

record QueryIterator =
  totalResults :: "32 word"
  minScore :: real
  endProc :: nat
  profileCount :: "nat \<Rightarrow> 64 word"
  gilUnlocks :: nat

section \<open>Upstream processors\<close>

text \<open>
  What \<open>base->upstream->Next(base->upstream, res)\<close> does. An upstream is either any
  processor of a given type, described by the results its \<open>Next\<close> returns call after call
  (\<open>Rec x\<close>: \<open>RS_RESULT_OK\<close> with \<open>x\<close> written to the out record; \<open>End s\<close>: status
  \<open>s\<close>, the out record untouched; \<open>RS_RESULT_EOF\<close> once the list is used up), or a
  profiler (\<open>RPProfile\<close>, at an address of the store) wrapped around an upstream.
\<close>

datatype event = Rec SearchResult | End RPStatus

datatype upstream = Feed ResultProcessorType "event list" | Profiled nat upstream

text \<open>What a call of \<open>Next\<close> returns: the status, the processor's own state, its upstream,
  the pipeline handle and the out record, all after the call.\<close>

record 's ret =
  rc :: RPStatus
  self :: 's
  ups :: upstream
  qit :: QueryIterator
  res :: SearchResult

fun up_type :: "upstream \<Rightarrow> ResultProcessorType" where
  "up_type (Feed t es) = t"
| "up_type (Profiled a u) = RP_PROFILE"

text \<open>\<open>((RPProfile *)a)->profileCount++\<close> on the profiler at address \<open>a\<close>.\<close>

definition bump :: "nat \<Rightarrow> QueryIterator \<Rightarrow> QueryIterator" where
  "bump a q = q\<lparr>profileCount := (profileCount q)(a := profileCount q a + 1)\<rparr>"

text \<open>
  \<open>rpprofileNext\<close> delegates and then counts the call (\<open>self->profileCount++\<close>); the
  elapsed wall time it also accumulates is not modelled.
\<close>

fun up_next :: "upstream \<Rightarrow> QueryIterator \<Rightarrow> SearchResult \<Rightarrow> unit ret"
  and rpprofileNext :: "nat \<Rightarrow> upstream \<Rightarrow> QueryIterator \<Rightarrow> SearchResult \<Rightarrow> unit ret" where
  "up_next (Feed t []) q r = \<lparr>rc = RS_RESULT_EOF, self = (), ups = Feed t [], qit = q, res = r\<rparr>"
| "up_next (Feed t (Rec x # es)) q r =
     \<lparr>rc = RS_RESULT_OK, self = (), ups = Feed t es, qit = q, res = x\<rparr>"
| "up_next (Feed t (End s # es)) q r = \<lparr>rc = s, self = (), ups = Feed t es, qit = q, res = r\<rparr>"
| "up_next (Profiled a u) q r = rpprofileNext a u q r"
| "rpprofileNext a u q r =
     (let n = up_next u q r
      in n\<lparr>ups := Profiled a (ups n), qit := bump a (qit n)\<rparr>)"

text \<open>The results an upstream still holds, and the profilers in it.\<close>

fun events :: "upstream \<Rightarrow> event list" where
  "events (Feed t es) = es"
| "events (Profiled a u) = events u"

fun profilers :: "upstream \<Rightarrow> nat list" where
  "profilers (Feed t es) = []"
| "profilers (Profiled a u) = a # profilers u"

text \<open>
  The status the next call of an upstream returns: that of the first of the results it
  still holds.
\<close>

fun next_rc :: "event list \<Rightarrow> RPStatus" where
  "next_rc [] = RS_RESULT_EOF"
| "next_rc (Rec x # es) = RS_RESULT_OK"
| "next_rc (End s # es) = s"

text \<open>
  A call that returns \<open>RS_RESULT_OK\<close> uses up one of the results the upstream holds: the loops
  of the processors end.
\<close>

lemma up_next_events:
  "events (ups (up_next u q r)) = tl (events u)"
  "events (ups (rpprofileNext a u q r)) = tl (events u)"
  by (induction u q r and a u q r rule: up_next_rpprofileNext.induct) (simp_all add: Let_def)

lemma up_next_OK_events:
  "rc (up_next u q r) = RS_RESULT_OK \<Longrightarrow> events u \<noteq> []"
  "rc (rpprofileNext a u q r) = RS_RESULT_OK \<Longrightarrow> events u \<noteq> []"
  by (induction u q r and a u q r rule: up_next_rpprofileNext.induct) (simp_all add: Let_def)

lemma up_next_shorter:
  "rc (up_next u q r) = RS_RESULT_OK \<Longrightarrow>
     length (events (ups (up_next u q r))) < length (events u)"
  using up_next_OK_events(1) [of u q r] by (simp add: up_next_events)

lemma up_next_rc:
  "rc (up_next u q r) = next_rc (events u)"
  "rc (rpprofileNext a u q r) = next_rc (events u)"
  by (induction u q r and a u q r rule: up_next_rpprofileNext.induct) (simp_all add: Let_def)

section \<open>Counter\<close>

record RPCounter =
  count :: "64 word"

function rpcountNext :: "RPCounter \<Rightarrow> upstream \<Rightarrow> QueryIterator \<Rightarrow> SearchResult \<Rightarrow> RPCounter ret"
  where
  "rpcountNext slf u q r =
     (let n = up_next u q r in
      if rc n = RS_RESULT_OK
      then rpcountNext (slf\<lparr>count := count slf + 1\<rparr>) (ups n) (qit n) (SearchResult_Clear (res n))
      else \<lparr>rc = rc n, self = slf, ups = ups n,
            qit = (if up_type (ups n) = RP_PROFILE then bump (endProc (qit n)) (qit n)
                   else qit n),
            res = res n\<rparr>)"
  by pat_completeness auto

termination rpcountNext
  by (relation "measure (\<lambda>(slf, u, q, r). length (events u))") (simp_all add: up_next_shorter)

declare rpcountNext.simps [simp del]

section \<open>Unlocker\<close>


section \<open>Buffer and locker: the yield phase\<close>

text \<open>
  The buffer holds the records in the order they were buffered; \<open>resultsIterator\<close> is the
  position of the next one.
\<close>

record RPBufferAndLocker =
  bufferBlocks :: "SearchResult list"
  resultsIterator :: nat

text \<open>
  Modelled from the spec: \<open>FixedSizeBlocksManager_getNextElement\<close>
  (util/block_alloc_fixedSize.h is not among the sources) gives the buffered records in
  the order they were buffered, then a null pointer; \<open>None\<close> is the null pointer,
  \<open>Some i\<close> the slot \<open>i\<close>.
\<close>

definition FixedSizeBlocksManager_getNextElement ::
  "RPBufferAndLocker \<Rightarrow> nat option \<times> RPBufferAndLocker" where
  "FixedSizeBlocksManager_getNextElement b =
     (if resultsIterator b < length (bufferBlocks b)
      then (Some (resultsIterator b), b\<lparr>resultsIterator := resultsIterator b + 1\<rparr>)
      else (None, b))"

text \<open>
  \<open>isResultValid\<close> returns \<open>res->dmd->flags & Document_Deleted\<close> as a \<open>bool\<close>: true when
  a bit of the mask is set. \<open>None\<close> stands for the dereference of a null \<open>dmd\<close>.
\<close>

definition isResultValid :: "32 word \<Rightarrow> SearchResult \<Rightarrow> bool option" where
  "isResultValid dd r = (case dmd r of None \<Rightarrow> None | Some d \<Rightarrow> Some (flags d AND dd \<noteq> 0))"

text \<open>\<open>ReturnResult\<close>: the out record and the slot after it was invalidated.\<close>

definition ReturnResult :: "SearchResult \<Rightarrow> SearchResult \<times> SearchResult" where
  "ReturnResult buffered_result =
     (buffered_result,
      buffered_result\<lparr>indexResult := None, dmd := None, scoreExplain := None,
                       rowdata := \<lparr>sv = None, dyn = None\<rparr>\<rparr>)"


function rpbufferNext_ValidateAndYield ::
  "32 word \<Rightarrow> RPBufferAndLocker \<Rightarrow> SearchResult
     \<Rightarrow> (RPStatus \<times> RPBufferAndLocker \<times> SearchResult) option" where
  "rpbufferNext_ValidateAndYield dd b out =
     (case FixedSizeBlocksManager_getNextElement b of
        (None, b') \<Rightarrow> Some (RS_RESULT_EOF, b', out)
      | (Some i, b') \<Rightarrow>
          (case isResultValid dd (bufferBlocks b' ! i) of
             None \<Rightarrow> None
           | Some True \<Rightarrow>
               (case ReturnResult (bufferBlocks b' ! i) of
                  (o', slot') \<Rightarrow>
                    Some (RS_RESULT_OK, b'\<lparr>bufferBlocks := (bufferBlocks b')[i := slot']\<rparr>, o'))
           | Some False \<Rightarrow>
               rpbufferNext_ValidateAndYield dd
                 (b'\<lparr>bufferBlocks := (bufferBlocks b')[i := SearchResult_Clear (bufferBlocks b' ! i)]\<rparr>)
                 out))"
  by pat_completeness auto
termination
  by (relation "measure (\<lambda>(dd, b, out). length (bufferBlocks b) - resultsIterator b)")
    (auto simp: FixedSizeBlocksManager_getNextElement_def split: if_splits)

declare rpbufferNext_ValidateAndYield.simps [simp del]

section \<open>Scorer\<close>

text \<open>
  The scoring function reads its context, the record's index result and metadata and the
  pipeline's minimal score; it may fill the explanation its context points to, so it
  returns the context as it leaves it. \<open>RS_SCORE_FILTEROUT\<close> is declared outside the
  sources at hand and is a parameter (\<open>fo\<close>) of the scorer.
\<close>

record ScoringFunctionArgs =
  scrExp :: "RSScoreExplain option"
  extdata :: nat

type_synonym RSScoringFunction =
  "ScoringFunctionArgs \<Rightarrow> RSIndexResult option \<Rightarrow> RSDocumentMetadata option \<Rightarrow> real
     \<Rightarrow> real \<times> ScoringFunctionArgs"

record RPScorer =
  scorer :: RSScoringFunction
  scorerCtx :: ScoringFunctionArgs

text \<open>
  One pass of the loop body after a successful pull: the score is stored; if the context
  holds an explanation, the record takes it and the context gets a fresh, zeroed one.
\<close>

definition apply_score :: "RPScorer \<Rightarrow> QueryIterator \<Rightarrow> SearchResult \<Rightarrow> SearchResult \<times> RPScorer"
  where
  "apply_score slf q r =
     (case scorer slf (scorerCtx slf) (indexResult r) (dmd r) (minScore q) of
        (sc, ctx) \<Rightarrow>
          (if scrExp ctx \<noteq> None
           then (r\<lparr>score := sc, scoreExplain := scrExp ctx\<rparr>,
                 slf\<lparr>scorerCtx := ctx\<lparr>scrExp := Some []\<rparr>\<rparr>)
           else (r\<lparr>score := sc\<rparr>, slf\<lparr>scorerCtx := ctx\<rparr>)))"

function rpscoreNext ::
  "real \<Rightarrow> RPScorer \<Rightarrow> upstream \<Rightarrow> QueryIterator \<Rightarrow> SearchResult \<Rightarrow> RPScorer ret" where
  "rpscoreNext fo slf u q r =
     (let n = up_next u q r in
      if rc n \<noteq> RS_RESULT_OK
      then \<lparr>rc = rc n, self = slf, ups = ups n, qit = qit n, res = res n\<rparr>
      else
        (let scored = apply_score slf (qit n) (res n) in
         if score (fst scored) = fo
         then rpscoreNext fo (snd scored) (ups n)
                ((qit n)\<lparr>totalResults := totalResults (qit n) - 1\<rparr>)
                (SearchResult_Clear (fst scored))
         else \<lparr>rc = RS_RESULT_OK, self = snd scored, ups = ups n, qit = qit n,
               res = fst scored\<rparr>))"
  by pat_completeness auto
termination
  by (relation "measure (\<lambda>(fo, slf, u, q, r). length (events u))") (simp_all add: up_next_shorter)

declare rpscoreNext.simps [simp del]

section \<open>Metrics loader\<close>



section \<open>Loader\<close>

text \<open>The load mode is a set of flags, empty in zeroed options.\<close>

datatype RLookupLoadMode = RLOOKUP_LOAD_KEYLIST | RLOOKUP_LOAD_ALLKEYS

record RLookupLoadOptions =
  lo_dmd :: RSDocumentMetadata
  noSortables :: bool
  forceString :: bool
  lo_keys :: "RLookupKey list"
  lo_mode :: "RLookupLoadMode set"

record RPLoader =
  lk :: nat
  lfields :: "RLookupKey list"

text \<open>
  \<open>RLookup_LoadDocument\<close> belongs to the host side and is a parameter (\<open>ld\<close>): from the
  lookup, the row and the options it gives the row as it leaves it, and whether it put an
  error in the status it was handed.
\<close>

type_synonym load_document = "nat \<Rightarrow> RLookupRow \<Rightarrow> RLookupLoadOptions \<Rightarrow> RLookupRow \<times> bool"

definition loader_opts :: "RPLoader \<Rightarrow> RSDocumentMetadata \<Rightarrow> RLookupLoadOptions" where
  "loader_opts lc d =
     \<lparr>lo_dmd = d, noSortables = True, forceString = True, lo_keys = lfields lc,
      lo_mode = (if length (lfields lc) \<noteq> 0 then {RLOOKUP_LOAD_KEYLIST}
                 else {RLOOKUP_LOAD_ALLKEYS})\<rparr>"

definition rploaderNext ::
  "load_document \<Rightarrow> 32 word \<Rightarrow> RPLoader \<Rightarrow> upstream \<Rightarrow> QueryIterator \<Rightarrow> SearchResult
     \<Rightarrow> RPLoader ret" where
  "rploaderNext ld dd lc u q r =
     (let n = up_next u q r in
      if rc n \<noteq> RS_RESULT_OK
      then \<lparr>rc = rc n, self = lc, ups = ups n, qit = qit n, res = res n\<rparr>
      else
        (case dmd (res n) of
           None \<Rightarrow> \<lparr>rc = RS_RESULT_OK, self = lc, ups = ups n, qit = qit n, res = res n\<rparr>
         | Some d \<Rightarrow>
             if flags d AND dd \<noteq> 0
             then \<lparr>rc = RS_RESULT_OK, self = lc, ups = ups n, qit = qit n, res = res n\<rparr>
             else \<lparr>rc = RS_RESULT_OK, self = lc, ups = ups n, qit = qit n,
                   res = (res n)\<lparr>rowdata := fst (ld (lk lc) (rowdata (res n)) (loader_opts lc d))\<rparr>\<rparr>))"

section \<open>Pager\<close>

text \<open>The pager's three counters are \<open>uint32_t\<close>; \<open>RPPager_New\<close> takes \<open>size_t\<close> values and
  stores them truncated.\<close>

record RPPager =
  pg_offset :: "32 word"
  pg_limit :: "32 word"
  pg_count :: "32 word"

definition RPPager_New :: "nat \<Rightarrow> nat \<Rightarrow> RPPager" where
  "RPPager_New offset limit = \<lparr>pg_offset = of_nat offset, pg_limit = of_nat limit, pg_count = 0\<rparr>"

function rppagerNext :: "RPPager \<Rightarrow> upstream \<Rightarrow> QueryIterator \<Rightarrow> SearchResult \<Rightarrow> RPPager ret"
  where
  "rppagerNext slf u q r =
     (if pg_count slf < pg_offset slf
      then
        (let n = up_next u q r in
         if rc n \<noteq> RS_RESULT_OK
         then \<lparr>rc = rc n, self = slf, ups = ups n, qit = qit n, res = res n\<rparr>
         else rppagerNext (slf\<lparr>pg_count := pg_count slf + 1\<rparr>) (ups n) (qit n)
                (SearchResult_Clear (res n)))
      else if pg_count slf \<ge> pg_limit slf + pg_offset slf
      then \<lparr>rc = RS_RESULT_EOF, self = slf, ups = u, qit = q, res = r\<rparr>
      else
        (let n = up_next u q r in
         \<lparr>rc = rc n, self = slf\<lparr>pg_count := pg_count slf + 1\<rparr>, ups = ups n, qit = qit n,
          res = res n\<rparr>))"
  by pat_completeness auto
termination
  by (relation "measure (\<lambda>(slf, u, q, r). length (events u))") (simp_all add: up_next_shorter)

declare rppagerNext.simps [simp del]

lemma rppagerNext_shorter:
  "rc (rppagerNext slf u q r) = RS_RESULT_OK \<Longrightarrow>
     length (events (ups (rppagerNext slf u q r))) < length (events u)"
proof (induction slf u q r rule: rppagerNext.induct)
  case (1 slf u q r)
  show ?case
  proof (cases "pg_count slf < pg_offset slf")
    case True
    show ?thesis
    proof (cases "rc (up_next u q r) = RS_RESULT_OK")
      case ok: True
      have eq: "rppagerNext slf u q r =
          rppagerNext (slf\<lparr>pg_count := pg_count slf + 1\<rparr>) (ups (up_next u q r))
            (qit (up_next u q r)) (SearchResult_Clear (res (up_next u q r)))"
        using True ok by (subst rppagerNext.simps) (simp add: Let_def)
      have "length (events (ups (rppagerNext slf u q r)))
          < length (events (ups (up_next u q r)))"
        using "1.IH" [OF True refl] ok "1.prems" unfolding eq by simp
      then show ?thesis
        using up_next_shorter [OF ok] by simp
    next
      case False
      with True "1.prems" show ?thesis
        by (subst (asm) rppagerNext.simps) (simp add: Let_def)
    qed
  next
    case False
    with "1.prems" show ?thesis
      by (subst rppagerNext.simps, subst (asm) rppagerNext.simps)
        (auto simp: Let_def up_next_shorter split: if_splits)
  qed
qed

text \<open>
  The caller's loop: \<open>Next\<close> is called until it returns a status other than OK; the records
  returned with OK are collected, in order, with the state the last call left.
\<close>

function pager_drain ::
  "RPPager \<Rightarrow> upstream \<Rightarrow> QueryIterator \<Rightarrow> SearchResult \<Rightarrow> SearchResult list \<times> RPPager ret"
  where
  "pager_drain slf u q r =
     (let n = rppagerNext slf u q r in
      if rc n = RS_RESULT_OK
      then (case pager_drain (self n) (ups n) (qit n) (res n) of (ys, fin) \<Rightarrow> (res n # ys, fin))
      else ([], n))"
  by pat_completeness auto
termination
  by (relation "measure (\<lambda>(slf, u, q, r). length (events u))") (simp_all add: rppagerNext_shorter)

declare pager_drain.simps [simp del]

section \<open>Sorter\<close>

subsection \<open>The heap\<close>

text \<open>
  A comparator: positive when the first record is above the second.
\<close>

type_synonym mmh_cmp_func = "SearchResult \<Rightarrow> SearchResult \<Rightarrow> int"

text \<open>
  Modelled from the spec: the min-max heap (util/minmax_heap.h is not among the sources)
  is "a double-ended priority queue supporting pop of both the minimum and the maximum",
  created with a capacity. It is kept as the list of its elements in descending order of
  its comparator, so the maximum is the head and the minimum the last element;
  \<open>mmh_insert\<close> puts an element before the first one it is greater than. \<open>h_size\<close> is
  the capacity the heap was created with and \<open>length h_data\<close> its \<open>count\<close>.
\<close>

record heap_t =
  h_size :: nat
  h_cmp :: mmh_cmp_func
  h_data :: "SearchResult list"

text \<open>
  Modelled from the spec: the operations of the min-max heap, on the list of its elements.
\<close>

definition mmh_init_with_size :: "nat \<Rightarrow> mmh_cmp_func \<Rightarrow> heap_t" where
  "mmh_init_with_size n c = \<lparr>h_size = n, h_cmp = c, h_data = []\<rparr>"







subsection \<open>Comparators\<close>

definition cmpByScore :: mmh_cmp_func where
  "cmpByScore h1 h2 =
     (if score h1 < score h2 then - 1
      else if score h1 > score h2 then 1
      else if docId h1 > docId h2 then - 1 else 1)"

text \<open>
  Modelled from the spec: \<open>RLookup_GetItem\<close> is the row's "get(key) -> value?"; a value
  loaded dynamically is found before one of the sort vector.
\<close>

definition RLookup_GetItem :: "RLookupKey \<Rightarrow> RLookupRow \<Rightarrow> RSValue option" where
  "RLookup_GetItem k row =
     (case (case dyn row of None \<Rightarrow> None | Some kvs \<Rightarrow> map_of kvs k) of
        Some v \<Rightarrow> Some v
      | None \<Rightarrow> (case sv row of None \<Rightarrow> None | Some kvs \<Rightarrow> map_of kvs k))"

text \<open>
  \<open>RSValue_Cmp\<close> and the bound \<open>SORTASCMAP_MAXFIELDS\<close> are declared outside the sources
  at hand and are parameters; \<open>SORTASCMAP_GETASC\<close> reads the bit of the field in the
  ascending bitmap.
\<close>

record sort_env =
  RSValue_Cmp :: "RSValue \<Rightarrow> RSValue \<Rightarrow> int"
  SORTASCMAP_MAXFIELDS :: nat

definition SORTASCMAP_GETASC :: "64 word \<Rightarrow> nat \<Rightarrow> bool" where
  "SORTASCMAP_GETASC mm pos = bit mm pos"

definition by_docId :: "bool \<Rightarrow> SearchResult \<Rightarrow> SearchResult \<Rightarrow> int" where
  "by_docId ascending h1 h2 =
     (let rc = (if docId h1 < docId h2 then - 1 else 1) in if ascending then - rc else rc)"

text \<open>The loop of \<open>cmpByFields\<close> from field \<open>i\<close> on, \<open>ks\<close> being the keys from \<open>i\<close> on.\<close>

fun cmpByFields_from ::
  "sort_env \<Rightarrow> 64 word \<Rightarrow> RLookupKey list \<Rightarrow> nat \<Rightarrow> bool \<Rightarrow> mmh_cmp_func" where
  "cmpByFields_from env ascmap [] i ascending h1 h2 = by_docId ascending h1 h2"
| "cmpByFields_from env ascmap (k # ks) i ascending h1 h2 =
     (if i < SORTASCMAP_MAXFIELDS env
      then
        (let asc = SORTASCMAP_GETASC ascmap i in
         case (RLookup_GetItem k (rowdata h1), RLookup_GetItem k (rowdata h2)) of
           (Some v1, Some v2) \<Rightarrow>
             (let rc = RSValue_Cmp env v1 v2 in
              if rc \<noteq> 0 then (if asc then - rc else rc)
              else cmpByFields_from env ascmap ks (i + 1) asc h1 h2)
         | (Some v1, None) \<Rightarrow> 1
         | (None, Some v2) \<Rightarrow> - 1
         | (None, None) \<Rightarrow> by_docId asc h1 h2)
      else by_docId ascending h1 h2)"

definition cmpByFields :: "sort_env \<Rightarrow> RLookupKey list \<Rightarrow> 64 word \<Rightarrow> mmh_cmp_func" where
  "cmpByFields env ks ascmap = cmpByFields_from env ascmap ks 0 False"

subsection \<open>The sorter's state\<close>

text \<open>\<open>nLoadKeys\<close> is \<open>None\<close> while it holds \<open>REDISEARCH_UNINITIALIZED\<close>; \<open>loadKeys\<close> is
  \<open>None\<close> while it is a null pointer.\<close>

record fieldcmp_t =
  fc_keys :: "RLookupKey list"
  ascendMap :: "64 word"
  loadKeys :: "RLookupKey list option"
  nLoadKeys :: "nat option"

datatype sorter_next = Next_is_Accum | Next_is_Yield

record RPSorter =
  srt_size :: "32 word"
  srt_offset :: "32 word"
  pq :: heap_t
  cmp :: mmh_cmp_func
  pooledResult :: "SearchResult option"
  fieldcmp :: fieldcmp_t
  srt_Next :: sorter_next

definition RPSorter_NewByFields ::
  "sort_env \<Rightarrow> nat \<Rightarrow> RLookupKey list \<Rightarrow> 64 word \<Rightarrow> RPSorter" where
  "RPSorter_NewByFields env maxresults ks ascmap =
     (let c = (if length ks \<noteq> 0 then cmpByFields env ks ascmap else cmpByScore) in
      \<lparr>srt_size = of_nat maxresults, srt_offset = 0,
       pq = mmh_init_with_size (maxresults + 1) c, cmp = c, pooledResult = None,
       fieldcmp = \<lparr>fc_keys = ks, ascendMap = ascmap, loadKeys = None, nLoadKeys = None\<rparr>,
       srt_Next = Next_is_Accum\<rparr>)"


subsection \<open>Yield\<close>


subsection \<open>Accumulate\<close>













section \<open>Quantile reducer\<close>

text \<open>
  The argument cursor is the list of arguments not yet read. A \<open>QueryError\<close> is the
  error it holds, if any.
\<close>

type_synonym ArgsCursor = "string list"

type_synonym QueryError = "string option"

text \<open>
  Modelled from the spec: the error macros (query_error.h is not among the sources) fill
  the slot "for the first fatal error": an error already there is kept.
\<close>

definition QueryError_SetError :: "QueryError \<Rightarrow> string \<Rightarrow> QueryError" where
  "QueryError_SetError st msg = (case st of None \<Rightarrow> Some msg | Some e \<Rightarrow> Some e)"

record ReducerOptions =
  ro_name :: string
  ro_args :: ArgsCursor
  ro_status :: QueryError

record QTLReducer =
  srckey :: RLookupKey
  pct :: real
  resolution :: nat

text \<open>
  The helpers of the reducer framework and of the argument cursor are not among the
  sources; they are parameters. \<open>ReducerOptions_GetKey\<close> gives the source key (\<open>None\<close>
  when it fails) and the options as it leaves them; the cursor's getters give \<open>Inl rv\<close>
  with a code other than \<open>AC_OK\<close>, or \<open>Inr\<close> of the value read and the cursor after it;
  \<open>ReducerOpts_EnsureArgsConsumed\<close> gives its verdict and the options as it leaves them.
\<close>

record reducer_env =
  ReducerOptions_GetKey :: "ReducerOptions \<Rightarrow> RLookupKey option \<times> ReducerOptions"
  AC_GetDouble :: "ArgsCursor \<Rightarrow> nat + real \<times> ArgsCursor"
  AC_IsAtEnd :: "ArgsCursor \<Rightarrow> bool"
  AC_GetUnsigned :: "ArgsCursor \<Rightarrow> nat + nat \<times> ArgsCursor"
  ReducerOpts_EnsureArgsConsumed :: "ReducerOptions \<Rightarrow> bool \<times> ReducerOptions"
  MAX_SAMPLE_SIZE :: nat

definition QERR_MKBADARGS_AC :: "ReducerOptions \<Rightarrow> string \<Rightarrow> nat \<Rightarrow> ReducerOptions" where
  "QERR_MKBADARGS_AC opts what rv =
     opts\<lparr>ro_status := QueryError_SetError (ro_status opts) (''Bad arguments for '' @ what)\<rparr>"

definition QERR_MKBADARGS_FMT :: "ReducerOptions \<Rightarrow> string \<Rightarrow> ReducerOptions" where
  "QERR_MKBADARGS_FMT opts msg =
     opts\<lparr>ro_status := QueryError_SetError (ro_status opts) msg\<rparr>"

text \<open>The last step of the constructor, after the arguments were read.\<close>

definition quantile_finish ::
  "reducer_env \<Rightarrow> QTLReducer \<Rightarrow> ReducerOptions \<Rightarrow> QTLReducer option \<times> ReducerOptions" where
  "quantile_finish env rd opts =
     (case ReducerOpts_EnsureArgsConsumed env opts of
        (False, opts') \<Rightarrow> (None, opts')
      | (True, opts') \<Rightarrow> (Some rd, opts'))"

text \<open>\<open>RDCRQuantile_New\<close>: the reducer (\<open>None\<close> for \<open>NULL\<close>) and the options after the
  call.\<close>

definition RDCRQuantile_New ::
  "reducer_env \<Rightarrow> ReducerOptions \<Rightarrow> QTLReducer option \<times> ReducerOptions" where
  "RDCRQuantile_New env options =
     (case ReducerOptions_GetKey env options of
        (None, o1) \<Rightarrow> (None, o1)
      | (Some k, o1) \<Rightarrow>
          (case AC_GetDouble env (ro_args o1) of
             Inl rv \<Rightarrow> (None, QERR_MKBADARGS_AC o1 (ro_name o1) rv)
           | Inr (p, a2) \<Rightarrow>
               if \<not> (p \<ge> 0 \<and> p \<le> 1)
               then (None, QERR_MKBADARGS_FMT (o1\<lparr>ro_args := a2\<rparr>)
                             ''Percentage must be between 0.0 and 1.0'')
               else if \<not> AC_IsAtEnd env a2
               then
                 (case AC_GetUnsigned env a2 of
                    Inl rv \<Rightarrow> (None, QERR_MKBADARGS_AC (o1\<lparr>ro_args := a2\<rparr>) ''<resolution>'' rv)
                  | Inr (n, a3) \<Rightarrow>
                      if n < 1 \<or> n > MAX_SAMPLE_SIZE env
                      then (None, QERR_MKBADARGS_FMT (o1\<lparr>ro_args := a3\<rparr>) ''Invalid resolution'')
                      else quantile_finish env \<lparr>srckey = k, pct = p, resolution = n\<rparr>
                             (o1\<lparr>ro_args := a3\<rparr>))
               else quantile_finish env \<lparr>srckey = k, pct = p, resolution = 500\<rparr>
                      (o1\<lparr>ro_args := a2\<rparr>)))"

section \<open>Notions used in the statements\<close>

text \<open>
  The number of results of status \<open>RS_RESULT_OK\<close> before the first other one: a loop that
  pulls until a status other than \<open>RS_RESULT_OK\<close> calls \<open>Next\<close> once more than that.
\<close>

fun oks :: "event list \<Rightarrow> nat" where
  "oks [] = 0"
| "oks (Rec x # es) = Suc (oks es)"
| "oks (End s # es) = (if s = RS_RESULT_OK then Suc (oks es) else 0)"












text \<open>
  The results of an upstream that returns EOF at every call from now on; and those of an
  upstream that keeps to the rule of the end itself: once it has returned EOF, it returns
  EOF at every later call.
\<close>

fun all_eof :: "event list \<Rightarrow> bool" where
  "all_eof [] = True"
| "all_eof (e # es) = (e = End RS_RESULT_EOF \<and> all_eof es)"



section \<open>Concrete inputs\<close>

text \<open>A fresh pipeline handle, a zeroed out record, and a live document's record.\<close>

definition q0 :: QueryIterator where
  "q0 = \<lparr>totalResults = 0, minScore = 0, endProc = 0, profileCount = (\<lambda>a. 0), gilUnlocks = 0\<rparr>"

definition blank :: SearchResult where
  "blank = \<lparr>docId = 0, score = 0, scoreExplain = None, indexResult = None, dmd = None,
             rowdata = \<lparr>sv = None, dyn = None\<rparr>\<rparr>"

definition doc :: "nat \<Rightarrow> real \<Rightarrow> SearchResult" where
  "doc i s = \<lparr>docId = i, score = s, scoreExplain = None, indexResult = Some i,
              dmd = Some \<lparr>dmd_id = i, flags = 0\<rparr>, rowdata = \<lparr>sv = None, dyn = None\<rparr>\<rparr>"

text \<open>A record whose document is marked deleted, for the mask \<open>1\<close>.\<close>

definition deleted_doc :: "nat \<Rightarrow> real \<Rightarrow> SearchResult" where
  "deleted_doc i s = (doc i s)\<lparr>dmd := Some \<lparr>dmd_id = i, flags = 1\<rparr>\<rparr>"

text \<open>
  A buffer of three records, the second marked deleted; and the buffer as the first and
  the second call in validate-and-yield mode leave it.
\<close>

definition c1_buffer :: RPBufferAndLocker where
  "c1_buffer = \<lparr>bufferBlocks = [doc 1 1, deleted_doc 2 1, doc 3 1], resultsIterator = 0\<rparr>"

definition c1_after_first :: RPBufferAndLocker where
  "c1_after_first =
     \<lparr>bufferBlocks = [SearchResult_Clear (doc 1 1), snd (ReturnResult (deleted_doc 2 1)), doc 3 1],
      resultsIterator = 2\<rparr>"

definition c1_after_second :: RPBufferAndLocker where
  "c1_after_second =
     \<lparr>bufferBlocks = [SearchResult_Clear (doc 1 1), snd (ReturnResult (deleted_doc 2 1)),
                      SearchResult_Clear (doc 3 1)],
      resultsIterator = 3\<rparr>"

text \<open>
  A counter's upstream: a profiler at address 1 over a source of one record; and the two
  calls the counter's loop makes on it.
\<close>

definition c5_up :: upstream where
  "c5_up = Profiled 1 (Feed RP_INDEX [Rec (doc 1 1)])"

definition c5_first :: "unit ret" where
  "c5_first = up_next c5_up q0 blank"

definition c5_second :: "unit ret" where
  "c5_second = up_next (ups c5_first) (qit c5_first) (SearchResult_Clear (res c5_first))"



text \<open>
  A scoring function that filters document 2 out (with \<open>-1\<close> as the filter-out value) and
  scores every other document 5.
\<close>

definition ex_scorer :: RSScoringFunction where
  "ex_scorer ctx ir d ms = (if ir = Some 2 then - 1 else 5, ctx)"

definition ex_RPScorer :: RPScorer where
  "ex_RPScorer = \<lparr>scorer = ex_scorer, scorerCtx = \<lparr>scrExp = None, extdata = 0\<rparr>\<rparr>"

text \<open>A host load that fails and writes nothing, and one that would write a field.\<close>

definition ld_fail :: load_document where
  "ld_fail l row opts = (row, True)"

definition ld_title :: load_document where
  "ld_title l row opts = (row\<lparr>dyn := Some [(''title'', ''t'')]\<rparr>, False)"

text \<open>
  A concrete environment: the first argument is the property, numbers are read from a
  few literals, and the sample size is capped at 1000.
\<close>

definition ex_number :: "string \<Rightarrow> (int \<times> int) option" where
  "ex_number s =
     (if s = ''0.5'' then Some (1, 2) else if s = ''1.5'' then Some (3, 2)
      else if s = ''0'' then Some (0, 1) else if s = ''100'' then Some (100, 1)
      else if s = ''5000'' then Some (5000, 1) else None)"

definition ex_env :: reducer_env where
  "ex_env =
     \<lparr>ReducerOptions_GetKey = (\<lambda>opts. case ro_args opts of
          [] \<Rightarrow> (None, opts\<lparr>ro_status := QueryError_SetError (ro_status opts) ''Missing property''\<rparr>)
        | a # rest \<Rightarrow> (Some a, opts\<lparr>ro_args := rest\<rparr>)),
      AC_GetDouble = (\<lambda>args. case args of [] \<Rightarrow> Inl 1
        | a # rest \<Rightarrow> (case ex_number a of None \<Rightarrow> Inl 2
            | Some (i, j) \<Rightarrow> Inr (real_of_int i / real_of_int j, rest))),
      AC_IsAtEnd = (\<lambda>args. args = []),
      AC_GetUnsigned = (\<lambda>args. case args of [] \<Rightarrow> Inl 1
        | a # rest \<Rightarrow> (case ex_number a of None \<Rightarrow> Inl 2
            | Some (i, j) \<Rightarrow> if j = 1 \<and> 0 \<le> i then Inr (nat i, rest) else Inl 2)),
      ReducerOpts_EnsureArgsConsumed = (\<lambda>opts.
        if ro_args opts = [] then (True, opts)
        else (False, opts\<lparr>ro_status := QueryError_SetError (ro_status opts) ''Too many arguments''\<rparr>)),
      MAX_SAMPLE_SIZE = 1000\<rparr>"

definition ex_options :: "string list \<Rightarrow> ReducerOptions" where
  "ex_options as = \<lparr>ro_name = ''QUANTILE'', ro_args = as, ro_status = None\<rparr>"


definition named_doc :: "nat \<Rightarrow> string \<Rightarrow> SearchResult" where
  "named_doc i nm = (doc i 0)\<lparr>rowdata := \<lparr>sv = Some [(''name'', nm)], dyn = None\<rparr>\<rparr>"












text \<open>A record with an explanation, a sort vector and a loaded value, of document 2.\<close>

definition c8_doc :: SearchResult where
  "c8_doc = (doc 2 7)\<lparr>scoreExplain := Some [''e''],
                      rowdata := \<lparr>sv = Some [(''name'', ''b'')], dyn = Some [(''title'', ''t'')]\<rparr>\<rparr>"

section \<open>Facts about upstream calls\<close>

lemma up_next_res:
  "res (up_next u q r) = (case events u of Rec x # es \<Rightarrow> x | _ \<Rightarrow> r)"
  "res (rpprofileNext a u q r) = (case events u of Rec x # es \<Rightarrow> x | _ \<Rightarrow> r)"
  by (induction u q r and a u q r rule: up_next_rpprofileNext.induct) (simp_all add: Let_def)

lemma up_next_frame:
  "up_type (ups (up_next u q r)) = up_type u \<and> profilers (ups (up_next u q r)) = profilers u
   \<and> qit (up_next u q r) = foldr bump (profilers u) q"
  "up_type (ups (rpprofileNext a u q r)) = RP_PROFILE
   \<and> profilers (ups (rpprofileNext a u q r)) = a # profilers u
   \<and> qit (rpprofileNext a u q r) = bump a (foldr bump (profilers u) q)"
  by (induction u q r and a u q r rule: up_next_rpprofileNext.induct) (simp_all add: Let_def)

lemma foldr_bump_fields:
  "endProc (foldr bump ps q) = endProc q"
  "totalResults (foldr bump ps q) = totalResults q"
  "minScore (foldr bump ps q) = minScore q"
  "gilUnlocks (foldr bump ps q) = gilUnlocks q"
  by (induction ps) (simp_all add: bump_def)

lemma foldr_bump_profileCount:
  "profileCount (foldr bump ps q) a = profileCount q a + of_nat (count_list ps a)"
  by (induction ps) (auto simp: bump_def)

lemma oks_next_rc:
  "next_rc es = RS_RESULT_OK \<Longrightarrow> oks es = Suc (oks (tl es))"
  "next_rc es \<noteq> RS_RESULT_OK \<Longrightarrow> oks es = 0"
  by (induction es rule: oks.induct) simp_all

section \<open>Facts about the counter\<close>

lemma rpcountNext_never_OK: "rc (rpcountNext slf u q r) \<noteq> RS_RESULT_OK"
  by (induction slf u q r rule: rpcountNext.induct) (subst rpcountNext.simps, simp add: Let_def)

lemma rpcountNext_count:
  "count (self (rpcountNext slf u q r)) = count slf + of_nat (oks (events u))"
proof (induction slf u q r rule: rpcountNext.induct)
  case (1 slf u q r)
  show ?case
  proof (cases "rc (up_next u q r) = RS_RESULT_OK")
    case True
    with 1 show ?thesis
      by (subst rpcountNext.simps) (simp add: Let_def up_next_rc up_next_events oks_next_rc)
  next
    case False
    then show ?thesis
      by (subst rpcountNext.simps) (simp add: Let_def up_next_rc oks_next_rc)
  qed
qed

lemma rpcountNext_profileCount:
  "profileCount (qit (rpcountNext slf u q r)) a =
     profileCount q a + of_nat (Suc (oks (events u)) * count_list (profilers u) a)
       + (if up_type u = RP_PROFILE \<and> a = endProc q then 1 else 0)"
proof (induction slf u q r rule: rpcountNext.induct)
  case (1 slf u q r)
  show ?case
  proof (cases "rc (up_next u q r) = RS_RESULT_OK")
    case True
    with 1 show ?thesis
      by (subst rpcountNext.simps)
        (simp add: Let_def up_next_rc up_next_events oks_next_rc up_next_frame
          foldr_bump_fields foldr_bump_profileCount algebra_simps)
  next
    case False
    then show ?thesis
      by (subst rpcountNext.simps)
        (simp add: Let_def up_next_rc oks_next_rc up_next_frame foldr_bump_fields
          foldr_bump_profileCount bump_def)
  qed
qed

lemma rpcountNext_endProc: "endProc (qit (rpcountNext slf u q r)) = endProc q"
proof (induction slf u q r rule: rpcountNext.induct)
  case (1 slf u q r)
  then show ?case
    by (subst rpcountNext.simps)
      (simp add: Let_def up_next_frame foldr_bump_fields bump_def)
qed

lemma rpcountNext_stream:
  "events u = map Rec xs @ es \<Longrightarrow> next_rc es \<noteq> RS_RESULT_OK \<Longrightarrow>
     rc (rpcountNext slf u q r) = next_rc es
     \<and> count (self (rpcountNext slf u q r)) = count slf + of_nat (length xs)
     \<and> events (ups (rpcountNext slf u q r)) = tl es
     \<and> res (rpcountNext slf u q r) = (if xs = [] then r else SearchResult_Clear (last xs))"
proof (induction xs arbitrary: slf u q r)
  case Nil
  then have stop: "rc (up_next u q r) \<noteq> RS_RESULT_OK" and same: "res (up_next u q r) = r"
    by (auto simp: up_next_rc up_next_res split: list.splits event.splits)
  have "rpcountNext slf u q r =
      \<lparr>rc = rc (up_next u q r), self = slf, ups = ups (up_next u q r),
       qit = (if up_type (ups (up_next u q r)) = RP_PROFILE
              then bump (endProc (qit (up_next u q r))) (qit (up_next u q r))
              else qit (up_next u q r)),
       res = r\<rparr>"
    using stop same by (subst rpcountNext.simps) (simp add: Let_def)
  with Nil show ?case
    by (simp add: up_next_rc up_next_events)
next
  case (Cons x xs)
  let ?n = "up_next u q r"
  have ev: "events (ups ?n) = map Rec xs @ es" and ok: "rc ?n = RS_RESULT_OK" and rx: "res ?n = x"
    using Cons.prems(1) by (simp_all add: up_next_events up_next_rc up_next_res)
  have unfold: "rpcountNext slf u q r =
      rpcountNext (slf\<lparr>count := count slf + 1\<rparr>) (ups ?n) (qit ?n) (SearchResult_Clear x)"
    using ok rx by (subst rpcountNext.simps) (simp add: Let_def)
  show ?case
    unfolding unfold
    using Cons.IH [OF ev Cons.prems(2), of "slf\<lparr>count := count slf + 1\<rparr>" "qit ?n" "SearchResult_Clear x"]
    by (cases xs) (simp_all add: algebra_simps)
qed

section \<open>Facts about the scorer\<close>

lemma rpscoreNext_OK_not_filtered:
  "rc (rpscoreNext fo slf u q r) = RS_RESULT_OK \<Longrightarrow> score (res (rpscoreNext fo slf u q r)) \<noteq> fo"
proof (induction fo slf u q r rule: rpscoreNext.induct)
  case (1 fo slf u q r)
  show ?case
  proof (cases "rc (up_next u q r) = RS_RESULT_OK
                  \<and> score (fst (apply_score slf (qit (up_next u q r)) (res (up_next u q r)))) = fo")
    case True
    then have "rpscoreNext fo slf u q r =
        rpscoreNext fo (snd (apply_score slf (qit (up_next u q r)) (res (up_next u q r))))
          (ups (up_next u q r))
          ((qit (up_next u q r))\<lparr>totalResults := totalResults (qit (up_next u q r)) - 1\<rparr>)
          (SearchResult_Clear (fst (apply_score slf (qit (up_next u q r)) (res (up_next u q r)))))"
      by (subst rpscoreNext.simps) (simp add: Let_def)
    with True 1 show ?thesis by simp
  next
    case False
    with 1(2) show ?thesis
      by (subst rpscoreNext.simps, subst (asm) rpscoreNext.simps)
        (auto simp: Let_def split: if_splits)
  qed
qed

section \<open>Facts about the pager\<close>

lemma pager_skip_step:
  assumes "pg_count slf < pg_offset slf" and "events u = Rec x # es"
  shows "pager_drain slf u q r =
           pager_drain (slf\<lparr>pg_count := pg_count slf + 1\<rparr>) (ups (up_next u q r))
             (qit (up_next u q r)) (SearchResult_Clear x)"
proof -
  have "rppagerNext slf u q r =
      rppagerNext (slf\<lparr>pg_count := pg_count slf + 1\<rparr>) (ups (up_next u q r))
        (qit (up_next u q r)) (SearchResult_Clear x)"
    using assms by (subst rppagerNext.simps) (simp add: Let_def up_next_rc up_next_res)
  then show ?thesis
    by (subst pager_drain.simps, subst (2) pager_drain.simps) simp
qed

lemma pager_stop:
  assumes "rc (rppagerNext slf u q r) = RS_RESULT_EOF"
  shows "fst (pager_drain slf u q r) = [] \<and> rc (snd (pager_drain slf u q r)) = RS_RESULT_EOF"
  using assms by (subst pager_drain.simps, subst (2) pager_drain.simps) (simp add: Let_def)

lemma pager_skip_end:
  assumes "pg_count slf < pg_offset slf" and "next_rc (events u) = RS_RESULT_EOF"
  shows "rc (rppagerNext slf u q r) = RS_RESULT_EOF"
  using assms by (subst rppagerNext.simps) (simp add: Let_def up_next_rc)

lemma pager_limit_end:
  assumes "\<not> pg_count slf < pg_offset slf" and "pg_count slf \<ge> pg_limit slf + pg_offset slf"
  shows "rc (rppagerNext slf u q r) = RS_RESULT_EOF"
  using assms by (subst rppagerNext.simps) simp

lemma pager_pass_end:
  assumes "\<not> pg_count slf < pg_offset slf" and "next_rc (events u) = RS_RESULT_EOF"
  shows "rc (rppagerNext slf u q r) = RS_RESULT_EOF"
  using assms by (subst rppagerNext.simps) (simp add: Let_def up_next_rc)

lemma pager_pass_step:
  assumes "\<not> pg_count slf < pg_offset slf" and "\<not> pg_count slf \<ge> pg_limit slf + pg_offset slf"
    and "events u = Rec x # es"
  shows "fst (pager_drain slf u q r) =
           x # fst (pager_drain (slf\<lparr>pg_count := pg_count slf + 1\<rparr>) (ups (up_next u q r))
             (qit (up_next u q r)) x)"
    and "snd (pager_drain slf u q r) =
           snd (pager_drain (slf\<lparr>pg_count := pg_count slf + 1\<rparr>) (ups (up_next u q r))
             (qit (up_next u q r)) x)"
proof -
  have "rppagerNext slf u q r =
      \<lparr>rc = RS_RESULT_OK, self = slf\<lparr>pg_count := pg_count slf + 1\<rparr>, ups = ups (up_next u q r),
       qit = qit (up_next u q r), res = x\<rparr>"
    using assms by (subst rppagerNext.simps) (simp add: Let_def up_next_rc up_next_res)
  then show "fst (pager_drain slf u q r) =
           x # fst (pager_drain (slf\<lparr>pg_count := pg_count slf + 1\<rparr>) (ups (up_next u q r))
             (qit (up_next u q r)) x)"
    and "snd (pager_drain slf u q r) =
           snd (pager_drain (slf\<lparr>pg_count := pg_count slf + 1\<rparr>) (ups (up_next u q r))
             (qit (up_next u q r)) x)"
    by (subst pager_drain.simps; simp add: Let_def split: prod.splits)+
qed

lemma pager_drain_window:
  assumes "events u = map Rec xs @ es" and "next_rc es = RS_RESULT_EOF"
    and "unat (pg_offset slf) + unat (pg_limit slf) < 2 ^ 32"
    and "unat (pg_count slf) \<le> unat (pg_offset slf) + unat (pg_limit slf)"
  shows "fst (pager_drain slf u q r) =
           take (unat (pg_offset slf) + unat (pg_limit slf)
                   - max (unat (pg_count slf)) (unat (pg_offset slf)))
             (drop (unat (pg_offset slf) - unat (pg_count slf)) xs)
       \<and> rc (snd (pager_drain slf u q r)) = RS_RESULT_EOF"
  using assms
proof (induction xs arbitrary: slf u q r)
  case Nil
  then have "next_rc (events u) = RS_RESULT_EOF" by simp
  then have "rc (rppagerNext slf u q r) = RS_RESULT_EOF"
    using pager_skip_end [of slf u q r] pager_pass_end [of slf u q r] by blast
  then show ?case
    using pager_stop by simp
next
  case (Cons x xs)
  let ?slf' = "slf\<lparr>pg_count := pg_count slf + 1\<rparr>"
  have sum: "unat (pg_limit slf + pg_offset slf) = unat (pg_offset slf) + unat (pg_limit slf)"
    using Cons.prems(3) by (simp add: unat_word_ariths)
  have ev: "events u = Rec x # (map Rec xs @ es)"
    using Cons.prems(1) by simp
  have ev': "events (ups (up_next u q r)) = map Rec xs @ es"
    using ev by (simp add: up_next_events)
  show ?case
  proof (cases "pg_count slf < pg_offset slf")
    case True
    then have lt: "unat (pg_count slf) < unat (pg_offset slf)"
      by (simp add: word_less_nat_alt)
    then have suc: "unat (pg_count slf + 1) = unat (pg_count slf) + 1"
      using Cons.prems(3) by (simp add: unat_word_ariths)
    have "pager_drain slf u q r =
        pager_drain ?slf' (ups (up_next u q r)) (qit (up_next u q r)) (SearchResult_Clear x)"
      using pager_skip_step [OF True ev] .
    moreover have "fst (pager_drain ?slf' (ups (up_next u q r)) (qit (up_next u q r)) (SearchResult_Clear x)) =
           take (unat (pg_offset ?slf') + unat (pg_limit ?slf')
                   - max (unat (pg_count ?slf')) (unat (pg_offset ?slf')))
             (drop (unat (pg_offset ?slf') - unat (pg_count ?slf')) xs)
       \<and> rc (snd (pager_drain ?slf' (ups (up_next u q r)) (qit (up_next u q r)) (SearchResult_Clear x)))
           = RS_RESULT_EOF"
      using Cons.prems(3) lt suc by (intro Cons.IH [OF ev' Cons.prems(2)]) simp_all
    ultimately show ?thesis
      using lt suc by (simp add: max_def Suc_diff_Suc drop_Cons')
  next
    case False
    then have ge: "unat (pg_offset slf) \<le> unat (pg_count slf)"
      by (simp add: word_less_nat_alt)
    show ?thesis
    proof (cases "pg_count slf \<ge> pg_limit slf + pg_offset slf")
      case True
      then have "unat (pg_offset slf) + unat (pg_limit slf) \<le> unat (pg_count slf)"
        using sum by (simp add: word_le_nat_alt)
      moreover have "rc (rppagerNext slf u q r) = RS_RESULT_EOF"
        using pager_limit_end [OF False True] .
      ultimately show ?thesis
        using pager_stop [of slf u q r] by simp
    next
      case nl: False
      then have lt: "unat (pg_count slf) < unat (pg_offset slf) + unat (pg_limit slf)"
        using sum by (simp add: word_le_nat_alt)
      then have suc: "unat (pg_count slf + 1) = unat (pg_count slf) + 1"
        using Cons.prems(3) by (simp add: unat_word_ariths)
      have ih: "fst (pager_drain ?slf' (ups (up_next u q r)) (qit (up_next u q r)) x) =
           take (unat (pg_offset ?slf') + unat (pg_limit ?slf')
                   - max (unat (pg_count ?slf')) (unat (pg_offset ?slf')))
             (drop (unat (pg_offset ?slf') - unat (pg_count ?slf')) xs)
         \<and> rc (snd (pager_drain ?slf' (ups (up_next u q r)) (qit (up_next u q r)) x))
           = RS_RESULT_EOF"
        using Cons.prems(3) lt suc by (intro Cons.IH [OF ev' Cons.prems(2)]) simp_all
      show ?thesis
        using pager_pass_step [OF False nl ev, of q r] ih ge lt suc
        by (simp add: max_def take_Cons')
    qed
  qed
qed

section \<open>Facts about sorted insertion\<close>



















section \<open>Facts about the sorter\<close>











section \<open>Facts about the comparators and the constructor\<close>












lemma NewByFields_no_keys:
  "length ks = 0 \<Longrightarrow> cmp (RPSorter_NewByFields env K ks ascmap) = cmpByScore"
  by (simp add: RPSorter_NewByFields_def)







section \<open>Facts about calls after EOF\<close>

lemma all_eof_next: "all_eof es \<Longrightarrow> next_rc es = RS_RESULT_EOF"
  by (cases es) auto

lemma all_eof_tl: "all_eof es \<Longrightarrow> all_eof (tl es)"
  by (cases es) auto




lemma up_next_after_eof:
  assumes "all_eof (events u)"
  shows "rc (up_next u q r) = RS_RESULT_EOF" and "res (up_next u q r) = r"
    and "all_eof (events (ups (up_next u q r)))"
proof -
  show "rc (up_next u q r) = RS_RESULT_EOF"
    using assms by (simp add: up_next_rc all_eof_next)
  show "res (up_next u q r) = r"
    using assms by (cases "events u") (auto simp: up_next_res)
  show "all_eof (events (ups (up_next u q r)))"
    using assms by (simp add: up_next_events all_eof_tl)
qed







lemma profiler_again:
  assumes "all_eof (events u)"
  shows "rc (rpprofileNext a u q r) = RS_RESULT_EOF" and "res (rpprofileNext a u q r) = r"
    and "all_eof (events (ups (rpprofileNext a u q r)))"
    and "qit (rpprofileNext a u q r) = bump a (foldr bump (profilers u) q)"
proof -
  have e: "all_eof (events (Profiled a u))"
    using assms by simp
  have p: "up_next (Profiled a u) q r = rpprofileNext a u q r"
    by simp
  note n = up_next_after_eof [OF e, of q r, unfolded p]
  show "rc (rpprofileNext a u q r) = RS_RESULT_EOF"
    by (rule n(1))
  show "res (rpprofileNext a u q r) = r"
    by (rule n(2))
  show "all_eof (events (ups (rpprofileNext a u q r)))"
    by (rule n(3))
  show "qit (rpprofileNext a u q r) = bump a (foldr bump (profilers u) q)"
    using up_next_frame(2) [of a u q r] by blast
qed






















section \<open>The claims\<close>

subsection \<open>C1: the buffer in validate-and-yield mode\<close>

text \<open>
  C1: what the code does where the claim fails. \<open>isResultValid\<close> holds of a record exactly
  when its document is marked deleted. The buffer holds three records, the second marked
  deleted. The first call in validate-and-yield mode clears the first, live record and
  yields the deleted one; the second call clears the third, live record and returns EOF.
  The live records are the ones discarded and the deleted one is the one that exits.
\<close>

theorem C1_validate_yields_deleted:
  "(isResultValid dd x = Some True) = (\<exists>d. dmd x = Some d \<and> flags d AND dd \<noteq> 0)
   \<and> isResultValid 1 (doc 1 1) = Some False
   \<and> isResultValid 1 (deleted_doc 2 1) = Some True
   \<and> rpbufferNext_ValidateAndYield 1 c1_buffer blank
       = Some (RS_RESULT_OK, c1_after_first, deleted_doc 2 1)
   \<and> rpbufferNext_ValidateAndYield 1 c1_after_first (deleted_doc 2 1)
       = Some (RS_RESULT_EOF, c1_after_second, deleted_doc 2 1)"
proof -
  have "(isResultValid dd x = Some True) = (\<exists>d. dmd x = Some d \<and> flags d AND dd \<noteq> 0)"
    by (simp add: isResultValid_def split: option.splits)
  moreover have "isResultValid 1 (doc 1 1) = Some False
      \<and> isResultValid 1 (deleted_doc 2 1) = Some True
      \<and> rpbufferNext_ValidateAndYield 1 c1_buffer blank
          = Some (RS_RESULT_OK, c1_after_first, deleted_doc 2 1)
      \<and> rpbufferNext_ValidateAndYield 1 c1_after_first (deleted_doc 2 1)
          = Some (RS_RESULT_EOF, c1_after_second, deleted_doc 2 1)"
    by (simp add: rpbufferNext_ValidateAndYield.simps FixedSizeBlocksManager_getNextElement_def
        isResultValid_def ReturnResult_def c1_buffer_def c1_after_first_def c1_after_second_def
        doc_def deleted_doc_def)
  ultimately show ?thesis
    by (rule conjI)
qed

subsection \<open>C2: the sorter yields the top K\<close>




subsection \<open>C3: calls after EOF\<close>




subsection \<open>C4: a timeout under the policy Return\<close>




subsection \<open>C5: the counter and the profiler\<close>

text \<open>
  C5, as the spec has it, fails: the bump goes to the immediately-upstream profiler. Here
  the upstream profiler is at address 1 and the pipeline's end processor at address 0; the
  counter calls upstream twice (one record, then EOF). The upstream profiler's count ends
  at 2, its own two calls, as after those two calls alone; the count of the end processor is
  the one that is bumped.
\<close>

theorem C5_upstream_profiler_not_bumped:
  "up_type c5_up = RP_PROFILE \<and> endProc q0 = 0
   \<and> rc c5_first = RS_RESULT_OK \<and> rc c5_second = RS_RESULT_EOF
   \<and> profileCount (qit c5_second) 1 = 2
   \<and> profileCount (qit (rpcountNext \<lparr>count = 0\<rparr> c5_up q0 blank)) 1 = 2
   \<and> profileCount (qit (rpcountNext \<lparr>count = 0\<rparr> c5_up q0 blank)) 1 \<noteq> 2 + 1
   \<and> profileCount (qit c5_second) 0 = 0
   \<and> profileCount (qit (rpcountNext \<lparr>count = 0\<rparr> c5_up q0 blank)) 0 = 1"
  by (simp add: c5_up_def c5_first_def c5_second_def q0_def rpcountNext.simps Let_def bump_def)

text \<open>
  C5, amended: whenever the counter's immediate upstream is a profiler, then on exit from
  its drain loop the counter increments by exactly one the call count of the pipeline's
  end processor (\<open>parent->endProc\<close>, the profiler that wraps the counter itself), not that
  of the immediately-upstream profiler, whose count grows by the number of \<open>Next\<close> calls
  the loop made on it and no more. (The end processor is downstream of the counter, so it
  is none of the profilers upstream of it.)
\<close>

theorem C5_counter_bumps_endProc:
  assumes "u = Profiled a u0" and "endProc q \<notin> set (profilers u)" and "a \<notin> set (profilers u0)"
  shows "profileCount (qit (rpcountNext slf u q r)) (endProc q) = profileCount q (endProc q) + 1
       \<and> profileCount (qit (rpcountNext slf u q r)) a
           = profileCount q a + of_nat (Suc (oks (events u)))
       \<and> endProc (qit (rpcountNext slf u q r)) = endProc q"
proof -
  have e: "count_list (profilers u) (endProc q) = 0"
    using assms(2) by (simp add: count_list_0_iff)
  have a: "count_list (profilers u) a = 1" and ne: "a \<noteq> endProc q"
    using assms by (auto simp: count_list_0_iff)
  have t: "up_type u = RP_PROFILE"
    using assms(1) by simp
  show ?thesis
    using ne by (simp add: rpcountNext_profileCount rpcountNext_endProc e a t)
qed

theorem C5_counter_bumps_endProc_witness:
  "c5_up = Profiled 1 (Feed RP_INDEX [Rec (doc 1 1)])
   \<and> endProc q0 \<notin> set (profilers c5_up)
   \<and> 1 \<notin> set (profilers (Feed RP_INDEX [Rec (doc 1 1)]))
   \<and> profileCount (qit (rpcountNext \<lparr>count = 0\<rparr> c5_up q0 blank)) (endProc q0) = 1
   \<and> profileCount (qit (rpcountNext \<lparr>count = 0\<rparr> c5_up q0 blank)) 1 = 2
   \<and> endProc (qit (rpcountNext \<lparr>count = 0\<rparr> c5_up q0 blank)) = endProc q0"
  using C5_counter_bumps_endProc
    [of c5_up 1 "Feed RP_INDEX [Rec (doc 1 1)]" q0 "\<lparr>count = 0\<rparr>" blank]
  by (simp add: c5_up_def q0_def)

subsection \<open>C6: the counter drains its upstream\<close>

text \<open>
  C6, as the spec has it, fails: the counter returns EOF always. On an upstream that times
  out after one record the counter returns \<open>RS_RESULT_TIMEDOUT\<close>, the status it got.
\<close>

theorem C6_counter_returns_timeout:
  "rc (rpcountNext \<lparr>count = 0\<rparr> (Feed RP_INDEX [Rec (doc 1 1), End RS_RESULT_TIMEDOUT]) q0 blank)
     = RS_RESULT_TIMEDOUT
   \<and> rc (rpcountNext \<lparr>count = 0\<rparr> (Feed RP_INDEX [Rec (doc 1 1), End RS_RESULT_TIMEDOUT]) q0 blank)
     \<noteq> RS_RESULT_EOF"
  by (simp add: rpcountNext.simps Let_def)

text \<open>
  C6, amended: the counter never returns \<open>RS_RESULT_OK\<close>; on an upstream that yields the
  records \<open>xs\<close> and then a status other than OK (EOF when it is used up), the counter pulls
  up to and including that status, returns it (EOF only when upstream ended with EOF), has
  counted \<open>length xs\<close> pulls, and leaves the out record cleared (the last record pulled,
  after \<open>SearchResult_Clear\<close>).
\<close>

theorem C6_counter_drains:
  "rc (rpcountNext slf u q r) \<noteq> RS_RESULT_OK
   \<and> (events u = map Rec xs @ es \<and> next_rc es \<noteq> RS_RESULT_OK \<longrightarrow>
        rc (rpcountNext slf u q r) = next_rc es
        \<and> count (self (rpcountNext slf u q r)) = count slf + of_nat (length xs)
        \<and> events (ups (rpcountNext slf u q r)) = tl es
        \<and> res (rpcountNext slf u q r) = (if xs = [] then r else SearchResult_Clear (last xs)))"
  using rpcountNext_never_OK [of slf u q r] rpcountNext_stream [of u xs es slf q r] by blast

theorem C6_counter_drains_witness:
  "events (Feed RP_INDEX [Rec (doc 1 1), Rec (doc 2 1), End RS_RESULT_EOF, Rec (doc 3 1)])
     = map Rec [doc 1 1, doc 2 1] @ [End RS_RESULT_EOF, Rec (doc 3 1)]
   \<and> next_rc [End RS_RESULT_EOF, Rec (doc 3 1)] \<noteq> RS_RESULT_OK
   \<and> rc (rpcountNext \<lparr>count = 0\<rparr>
        (Feed RP_INDEX [Rec (doc 1 1), Rec (doc 2 1), End RS_RESULT_EOF, Rec (doc 3 1)]) q0 blank)
      = RS_RESULT_EOF
   \<and> count (self (rpcountNext \<lparr>count = 0\<rparr>
        (Feed RP_INDEX [Rec (doc 1 1), Rec (doc 2 1), End RS_RESULT_EOF, Rec (doc 3 1)]) q0 blank))
      = 2
   \<and> events (ups (rpcountNext \<lparr>count = 0\<rparr>
        (Feed RP_INDEX [Rec (doc 1 1), Rec (doc 2 1), End RS_RESULT_EOF, Rec (doc 3 1)]) q0 blank))
      = [Rec (doc 3 1)]
   \<and> res (rpcountNext \<lparr>count = 0\<rparr>
        (Feed RP_INDEX [Rec (doc 1 1), Rec (doc 2 1), End RS_RESULT_EOF, Rec (doc 3 1)]) q0 blank)
      = SearchResult_Clear (doc 2 1)"
  using C6_counter_drains
    [of "\<lparr>count = 0\<rparr>"
        "Feed RP_INDEX [Rec (doc 1 1), Rec (doc 2 1), End RS_RESULT_EOF, Rec (doc 3 1)]"
        q0 blank "[doc 1 1, doc 2 1]" "[End RS_RESULT_EOF, Rec (doc 3 1)]"]
  by simp

subsection \<open>C7: the pager's window\<close>

text \<open>
  C7, as the spec has it, fails where \<open>offset + limit\<close> does not fit 32 bits: the pager
  compares its count with \<open>limit + offset\<close> computed in \<open>uint32_t\<close>. With offset 1 and
  limit \<open>2^32 - 1\<close> the sum wraps to 0: over two records the pager skips the first and
  returns EOF, where the claim has it yield the second.
\<close>

theorem C7_pager_sum_wraps:
  "take 4294967295 (drop 1 [doc 1 1, doc 2 1]) = [doc 2 1]
   \<and> fst (pager_drain (RPPager_New 1 4294967295)
            (Feed RP_SORTER [Rec (doc 1 1), Rec (doc 2 1), End RS_RESULT_EOF]) q0 blank) = []
   \<and> rc (snd (pager_drain (RPPager_New 1 4294967295)
            (Feed RP_SORTER [Rec (doc 1 1), Rec (doc 2 1), End RS_RESULT_EOF]) q0 blank))
       = RS_RESULT_EOF"
proof -
  have wrap: "(4294967296 :: 32 word) = 0"
    by simp
  show ?thesis
    by (simp add: pager_drain.simps rppagerNext.simps RPPager_New_def Let_def wrap)
qed

text \<open>
  C7, amended: for every upstream stream of records \<open>x1 ... xn\<close> followed by EOF, a pager
  constructed with \<open>(offset, limit)\<close> such that \<open>offset + limit < 2^32\<close> yields exactly the
  records \<open>x_{offset+1}\<close> through \<open>x_{min(offset+limit, n)}\<close> in input order, and returns
  EOF afterwards.
\<close>

theorem C7_pager_window:
  assumes "events u = map Rec xs @ es" and "next_rc es = RS_RESULT_EOF"
    and "offset + limit < 2 ^ 32"
  shows "fst (pager_drain (RPPager_New offset limit) u q r) = take limit (drop offset xs)
       \<and> rc (snd (pager_drain (RPPager_New offset limit) u q r)) = RS_RESULT_EOF"
proof -
  have o: "unat (of_nat offset :: 32 word) = offset" and l: "unat (of_nat limit :: 32 word) = limit"
    using assms(3) by (simp_all add: unat_of_nat)
  show ?thesis
    using pager_drain_window [OF assms(1,2), of "RPPager_New offset limit" q r] assms(3)
    by (simp add: RPPager_New_def o l)
qed

theorem C7_pager_window_witness:
  "events (Feed RP_SORTER
       [Rec (doc 2 3), Rec (doc 4 3), Rec (doc 3 2), Rec (doc 5 2), Rec (doc 1 1), End RS_RESULT_EOF])
     = map Rec [doc 2 3, doc 4 3, doc 3 2, doc 5 2, doc 1 1] @ [End RS_RESULT_EOF]
   \<and> next_rc [End RS_RESULT_EOF] = RS_RESULT_EOF
   \<and> (2::nat) + 2 < 2 ^ 32
   \<and> fst (pager_drain (RPPager_New 2 2) (Feed RP_SORTER
       [Rec (doc 2 3), Rec (doc 4 3), Rec (doc 3 2), Rec (doc 5 2), Rec (doc 1 1), End RS_RESULT_EOF])
       q0 blank) = [doc 3 2, doc 5 2]
   \<and> rc (snd (pager_drain (RPPager_New 2 2) (Feed RP_SORTER
       [Rec (doc 2 3), Rec (doc 4 3), Rec (doc 3 2), Rec (doc 5 2), Rec (doc 1 1), End RS_RESULT_EOF])
       q0 blank)) = RS_RESULT_EOF"
  using C7_pager_window
    [of "Feed RP_SORTER
       [Rec (doc 2 3), Rec (doc 4 3), Rec (doc 3 2), Rec (doc 5 2), Rec (doc 1 1), End RS_RESULT_EOF]"
      "[doc 2 3, doc 4 3, doc 3 2, doc 5 2, doc 1 1]" "[End RS_RESULT_EOF]" 2 2 q0 blank]
  by simp

subsection \<open>C8: the scorer filters\<close>

text \<open>
  C8: for a record \<open>x\<close> the scorer pulls from upstream, with \<open>sc\<close> the score the scoring
  function computes for it: if \<open>sc\<close> is the filter-out value, the call goes on as a call
  on the rest of the upstream with \<open>totalResults\<close> one less and the record cleared, so
  \<open>x\<close> is not emitted; otherwise it returns OK with the out record \<open>x\<close> carrying \<open>sc\<close>
  and \<open>totalResults\<close> as it was. And whenever the scorer returns OK, the record it emits
  does not carry the filter-out score. The cleared record keeps the document id and the
  sort vector of \<open>x\<close> and nothing else: its score is 0 and it has no explanation, no
  index result, no metadata and no loaded values; it is the out record the caller finds
  when the upstream gives no record after \<open>x\<close>.
\<close>

theorem C8_scorer_filters:
  assumes "events u = Rec x # es"
    and "apply_score slf (qit (up_next u q r)) x = (x', slf')"
  shows "(score x' = fo \<longrightarrow>
            rpscoreNext fo slf u q r =
              rpscoreNext fo slf' (ups (up_next u q r))
                ((qit (up_next u q r))\<lparr>totalResults := totalResults q - 1\<rparr>)
                (SearchResult_Clear x'))
       \<and> (score x' \<noteq> fo \<longrightarrow>
            rpscoreNext fo slf u q r =
              \<lparr>rc = RS_RESULT_OK, self = slf', ups = ups (up_next u q r),
               qit = qit (up_next u q r), res = x'\<rparr>
            \<and> totalResults (qit (rpscoreNext fo slf u q r)) = totalResults q)
       \<and> score x' = fst (scorer slf (scorerCtx slf) (indexResult x) (dmd x) (minScore q))
       \<and> docId x' = docId x
       \<and> (\<forall>slf u q r. rc (rpscoreNext fo slf u q r) = RS_RESULT_OK \<longrightarrow>
             score (res (rpscoreNext fo slf u q r)) \<noteq> fo)
       \<and> SearchResult_Clear x'
           = \<lparr>docId = docId x, score = 0, scoreExplain = None, indexResult = None, dmd = None,
              rowdata = \<lparr>sv = sv (rowdata x), dyn = None\<rparr>\<rparr>
       \<and> (score x' = fo \<and> next_rc es \<noteq> RS_RESULT_OK \<longrightarrow>
            rc (rpscoreNext fo slf u q r) = next_rc es
            \<and> self (rpscoreNext fo slf u q r) = slf'
            \<and> totalResults (qit (rpscoreNext fo slf u q r)) = totalResults q - 1
            \<and> res (rpscoreNext fo slf u q r)
                = \<lparr>docId = docId x, score = 0, scoreExplain = None, indexResult = None,
                   dmd = None, rowdata = \<lparr>sv = sv (rowdata x), dyn = None\<rparr>\<rparr>)"
proof -
  have ok: "rc (up_next u q r) = RS_RESULT_OK" and rx: "res (up_next u q r) = x"
    using assms(1) by (simp_all add: up_next_rc up_next_res)
  have tot: "totalResults (qit (up_next u q r)) = totalResults q"
    and ms: "minScore (qit (up_next u q r)) = minScore q"
    by (simp_all add: up_next_frame foldr_bump_fields)
  have a: "score x' = fo \<longrightarrow>
            rpscoreNext fo slf u q r =
              rpscoreNext fo slf' (ups (up_next u q r))
                ((qit (up_next u q r))\<lparr>totalResults := totalResults q - 1\<rparr>)
                (SearchResult_Clear x')"
    using ok rx assms(2) tot by (subst rpscoreNext.simps) (simp add: Let_def)
  have b: "score x' \<noteq> fo \<longrightarrow>
            rpscoreNext fo slf u q r =
              \<lparr>rc = RS_RESULT_OK, self = slf', ups = ups (up_next u q r),
               qit = qit (up_next u q r), res = x'\<rparr>"
    using ok rx assms(2) by (subst rpscoreNext.simps) (simp add: Let_def)
  have c: "score x' = fst (scorer slf (scorerCtx slf) (indexResult x) (dmd x) (minScore q))"
    and d: "docId x' = docId x" and rw: "rowdata x' = rowdata x"
    using assms(2) ms by (auto simp: apply_score_def split: prod.splits if_splits)
  have cl: "SearchResult_Clear x'
           = \<lparr>docId = docId x, score = 0, scoreExplain = None, indexResult = None, dmd = None,
              rowdata = \<lparr>sv = sv (rowdata x), dyn = None\<rparr>\<rparr>"
    using d rw by (cases x') (simp add: SearchResult_Clear_def RLookupRow_Wipe_def)
  have e: "score x' = fo \<and> next_rc es \<noteq> RS_RESULT_OK \<longrightarrow>
            rc (rpscoreNext fo slf u q r) = next_rc es
            \<and> self (rpscoreNext fo slf u q r) = slf'
            \<and> totalResults (qit (rpscoreNext fo slf u q r)) = totalResults q - 1
            \<and> res (rpscoreNext fo slf u q r) = SearchResult_Clear x'"
  proof
    assume h: "score x' = fo \<and> next_rc es \<noteq> RS_RESULT_OK"
    let ?u = "ups (up_next u q r)"
    let ?q = "(qit (up_next u q r))\<lparr>totalResults := totalResults q - 1\<rparr>"
    let ?n = "up_next ?u ?q (SearchResult_Clear x')"
    have ev: "events ?u = es"
      using assms(1) by (simp add: up_next_events)
    have stop: "rc ?n \<noteq> RS_RESULT_OK" and rcn: "rc ?n = next_rc es"
      using h ev by (simp_all add: up_next_rc)
    have same: "res ?n = SearchResult_Clear x'"
      using h ev by (cases es rule: next_rc.cases) (simp_all add: up_next_res)
    have "rpscoreNext fo slf' ?u ?q (SearchResult_Clear x')
        = \<lparr>rc = rc ?n, self = slf', ups = ups ?n, qit = qit ?n, res = res ?n\<rparr>"
      using stop by (subst rpscoreNext.simps) (simp add: Let_def)
    then show "rc (rpscoreNext fo slf u q r) = next_rc es
            \<and> self (rpscoreNext fo slf u q r) = slf'
            \<and> totalResults (qit (rpscoreNext fo slf u q r)) = totalResults q - 1
            \<and> res (rpscoreNext fo slf u q r) = SearchResult_Clear x'"
      using a h rcn same by (simp add: up_next_frame foldr_bump_fields)
  qed
  show ?thesis
    using a b c d tot rpscoreNext_OK_not_filtered cl e unfolding cl by auto
qed

theorem C8_scorer_filters_witness:
  "events (Feed RP_INDEX [Rec (doc 2 0), Rec (doc 3 0)]) = Rec (doc 2 0) # [Rec (doc 3 0)]
   \<and> apply_score ex_RPScorer
        (qit (up_next (Feed RP_INDEX [Rec (doc 2 0), Rec (doc 3 0)]) (q0\<lparr>totalResults := 2\<rparr>) blank))
        (doc 2 0) = ((doc 2 0)\<lparr>score := - 1\<rparr>, ex_RPScorer)
   \<and> rpscoreNext (- 1) ex_RPScorer (Feed RP_INDEX [Rec (doc 2 0), Rec (doc 3 0)])
        (q0\<lparr>totalResults := 2\<rparr>) blank
       = \<lparr>rc = RS_RESULT_OK, self = ex_RPScorer, ups = Feed RP_INDEX [],
          qit = q0\<lparr>totalResults := 1\<rparr>, res = (doc 3 0)\<lparr>score := 5\<rparr>\<rparr>
   \<and> events (Feed RP_INDEX [Rec c8_doc]) = Rec c8_doc # []
   \<and> apply_score ex_RPScorer (qit (up_next (Feed RP_INDEX [Rec c8_doc]) (q0\<lparr>totalResults := 1\<rparr>) blank))
        c8_doc = (c8_doc\<lparr>score := - 1\<rparr>, ex_RPScorer)
   \<and> score (c8_doc\<lparr>score := - 1\<rparr>) = - 1 \<and> next_rc [] \<noteq> RS_RESULT_OK
   \<and> rc (rpscoreNext (- 1) ex_RPScorer (Feed RP_INDEX [Rec c8_doc]) (q0\<lparr>totalResults := 1\<rparr>) blank)
       = RS_RESULT_EOF
   \<and> totalResults (qit (rpscoreNext (- 1) ex_RPScorer (Feed RP_INDEX [Rec c8_doc])
                          (q0\<lparr>totalResults := 1\<rparr>) blank)) = 0
   \<and> res (rpscoreNext (- 1) ex_RPScorer (Feed RP_INDEX [Rec c8_doc]) (q0\<lparr>totalResults := 1\<rparr>) blank)
       = \<lparr>docId = 2, score = 0, scoreExplain = None, indexResult = None, dmd = None,
          rowdata = \<lparr>sv = Some [(''name'', ''b'')], dyn = None\<rparr>\<rparr>
   \<and> res (rpscoreNext (- 1) ex_RPScorer (Feed RP_INDEX [Rec c8_doc]) (q0\<lparr>totalResults := 1\<rparr>) blank)
       \<noteq> c8_doc\<lparr>score := - 1\<rparr>"
proof -
  have s2: "apply_score ex_RPScorer q (doc 2 0) = ((doc 2 0)\<lparr>score := - 1\<rparr>, ex_RPScorer)"
    and s3: "apply_score ex_RPScorer q (doc 3 0) = ((doc 3 0)\<lparr>score := 5\<rparr>, ex_RPScorer)"
    and s8: "apply_score ex_RPScorer q c8_doc = (c8_doc\<lparr>score := - 1\<rparr>, ex_RPScorer)" for q
    by (simp_all add: apply_score_def ex_RPScorer_def ex_scorer_def doc_def c8_doc_def)
  have e2: "events (Feed RP_INDEX [Rec (doc 2 0), Rec (doc 3 0)]) = Rec (doc 2 0) # [Rec (doc 3 0)]"
    and e3: "events (Feed RP_INDEX [Rec (doc 3 0)]) = Rec (doc 3 0) # []"
    and e8: "events (Feed RP_INDEX [Rec c8_doc]) = Rec c8_doc # []"
    by simp_all
  have first: "rpscoreNext (- 1) ex_RPScorer (Feed RP_INDEX [Rec (doc 2 0), Rec (doc 3 0)])
        (q0\<lparr>totalResults := 2\<rparr>) blank
      = rpscoreNext (- 1) ex_RPScorer (Feed RP_INDEX [Rec (doc 3 0)]) (q0\<lparr>totalResults := 1\<rparr>)
          (SearchResult_Clear ((doc 2 0)\<lparr>score := - 1\<rparr>))"
    using C8_scorer_filters [OF e2 s2, where fo = "- 1" and q = "q0\<lparr>totalResults := 2\<rparr>"
        and r = blank, THEN conjunct1]
    by simp
  have second: "rpscoreNext (- 1) ex_RPScorer (Feed RP_INDEX [Rec (doc 3 0)])
        (q0\<lparr>totalResults := 1\<rparr>) (SearchResult_Clear ((doc 2 0)\<lparr>score := - 1\<rparr>))
      = \<lparr>rc = RS_RESULT_OK, self = ex_RPScorer, ups = Feed RP_INDEX [],
         qit = q0\<lparr>totalResults := 1\<rparr>, res = (doc 3 0)\<lparr>score := 5\<rparr>\<rparr>"
    using C8_scorer_filters [OF e3 s3, where fo = "- 1" and q = "q0\<lparr>totalResults := 1\<rparr>"
        and r = "SearchResult_Clear ((doc 2 0)\<lparr>score := - 1\<rparr>)", THEN conjunct2, THEN conjunct1]
    by simp
  have third: "rc (rpscoreNext (- 1) ex_RPScorer (Feed RP_INDEX [Rec c8_doc])
                     (q0\<lparr>totalResults := 1\<rparr>) blank) = RS_RESULT_EOF
      \<and> totalResults (qit (rpscoreNext (- 1) ex_RPScorer (Feed RP_INDEX [Rec c8_doc])
                          (q0\<lparr>totalResults := 1\<rparr>) blank)) = 0
      \<and> res (rpscoreNext (- 1) ex_RPScorer (Feed RP_INDEX [Rec c8_doc])
                (q0\<lparr>totalResults := 1\<rparr>) blank)
         = \<lparr>docId = 2, score = 0, scoreExplain = None, indexResult = None, dmd = None,
            rowdata = \<lparr>sv = Some [(''name'', ''b'')], dyn = None\<rparr>\<rparr>"
    using C8_scorer_filters [OF e8 s8, where fo = "- 1" and q = "q0\<lparr>totalResults := 1\<rparr>"
        and r = blank, THEN conjunct2, THEN conjunct2, THEN conjunct2, THEN conjunct2,
        THEN conjunct2, THEN conjunct2]
    by (simp add: c8_doc_def doc_def q0_def)
  then have differs: "res (rpscoreNext (- 1) ex_RPScorer (Feed RP_INDEX [Rec c8_doc])
                (q0\<lparr>totalResults := 1\<rparr>) blank) \<noteq> c8_doc\<lparr>score := - 1\<rparr>"
    by (simp add: c8_doc_def doc_def)
  show ?thesis
    using first second third differs by (simp add: s2 s8)
qed

subsection \<open>C9: the loader returns OK\<close>

text \<open>
  C9, as the spec has it, fails: a failed load leaves the row empty. The loader does not
  touch the row itself; for a record that comes with a sort vector and a host load that
  fails and writes nothing, it returns OK with the sort vector still in the row, where
  the value of \<open>name\<close> is found.
\<close>

theorem C9_failed_load_row_not_empty:
  "snd (ld_fail 0 (rowdata (named_doc 5 ''b''))
          (loader_opts \<lparr>lk = 0, lfields = []\<rparr> \<lparr>dmd_id = 5, flags = 0\<rparr>))
   \<and> rc (rploaderNext ld_fail 1 \<lparr>lk = 0, lfields = []\<rparr> (Feed RP_INDEX [Rec (named_doc 5 ''b'')])
            q0 blank) = RS_RESULT_OK
   \<and> rowdata (res (rploaderNext ld_fail 1 \<lparr>lk = 0, lfields = []\<rparr>
                      (Feed RP_INDEX [Rec (named_doc 5 ''b'')]) q0 blank))
       = \<lparr>sv = Some [(''name'', ''b'')], dyn = None\<rparr>
   \<and> RLookup_GetItem ''name''
        (rowdata (res (rploaderNext ld_fail 1 \<lparr>lk = 0, lfields = []\<rparr>
                         (Feed RP_INDEX [Rec (named_doc 5 ''b'')]) q0 blank)))
       = Some ''b''"
  by (simp add: rploaderNext_def loader_opts_def ld_fail_def named_doc_def doc_def
      RLookup_GetItem_def Let_def)

text \<open>
  C9, amended: for a record \<open>x\<close> the loader pulls from upstream it returns OK in every
  case. If the \<open>dmd\<close> of \<open>x\<close> is absent or marked deleted, the out record is \<open>x\<close> as
  upstream gave it, whatever the host's load would do: nothing is loaded. Otherwise the
  out record is \<open>x\<close> with the row as the host's load left it, whether or not the load
  reported an error: the error is not propagated, a failed load that wrote nothing leaves
  the row as it came, and the row is empty exactly when the load left it empty.
\<close>

theorem C9_loader_returns_OK:
  assumes "events u = Rec x # es"
  shows "rc (rploaderNext ld dd lc u q r) = RS_RESULT_OK
       \<and> (dmd x = None \<or> (\<exists>d. dmd x = Some d \<and> flags d AND dd \<noteq> 0) \<longrightarrow>
            res (rploaderNext ld dd lc u q r) = x)
       \<and> (\<forall>d. dmd x = Some d \<and> flags d AND dd = 0 \<longrightarrow>
            res (rploaderNext ld dd lc u q r)
              = x\<lparr>rowdata := fst (ld (lk lc) (rowdata x) (loader_opts lc d))\<rparr>)
       \<and> (\<forall>d. dmd x = Some d \<and> flags d AND dd = 0
              \<and> ld (lk lc) (rowdata x) (loader_opts lc d) = (rowdata x, True) \<longrightarrow>
            res (rploaderNext ld dd lc u q r) = x)
       \<and> (\<forall>d. dmd x = Some d \<and> flags d AND dd = 0 \<longrightarrow>
            (rowdata (res (rploaderNext ld dd lc u q r)) = \<lparr>sv = None, dyn = None\<rparr>)
              = (fst (ld (lk lc) (rowdata x) (loader_opts lc d)) = \<lparr>sv = None, dyn = None\<rparr>))
       \<and> totalResults (qit (rploaderNext ld dd lc u q r)) = totalResults q"
proof -
  have ok: "rc (up_next u q r) = RS_RESULT_OK" and rx: "res (up_next u q r) = x"
    using assms(1) by (simp_all add: up_next_rc up_next_res)
  have tot: "totalResults (qit (up_next u q r)) = totalResults q"
    by (simp add: up_next_frame foldr_bump_fields)
  show ?thesis
    using ok rx tot by (auto simp: rploaderNext_def Let_def split: option.splits)
qed

theorem C9_loader_returns_OK_witness:
  "events (Feed RP_INDEX [Rec (deleted_doc 4 1)]) = Rec (deleted_doc 4 1) # []
   \<and> rc (rploaderNext ld_title 1 \<lparr>lk = 0, lfields = []\<rparr> (Feed RP_INDEX [Rec (deleted_doc 4 1)])
          q0 blank) = RS_RESULT_OK
   \<and> res (rploaderNext ld_title 1 \<lparr>lk = 0, lfields = []\<rparr> (Feed RP_INDEX [Rec (deleted_doc 4 1)])
          q0 blank) = deleted_doc 4 1
   \<and> events (Feed RP_INDEX [Rec (doc 5 1)]) = Rec (doc 5 1) # []
   \<and> rc (rploaderNext ld_fail 1 \<lparr>lk = 0, lfields = []\<rparr> (Feed RP_INDEX [Rec (doc 5 1)])
          q0 blank) = RS_RESULT_OK
   \<and> res (rploaderNext ld_fail 1 \<lparr>lk = 0, lfields = []\<rparr> (Feed RP_INDEX [Rec (doc 5 1)])
          q0 blank) = doc 5 1
   \<and> rowdata (res (rploaderNext ld_fail 1 \<lparr>lk = 0, lfields = []\<rparr> (Feed RP_INDEX [Rec (doc 5 1)])
          q0 blank)) = \<lparr>sv = None, dyn = None\<rparr>
   \<and> events (Feed RP_INDEX [Rec (named_doc 5 ''b'')]) = Rec (named_doc 5 ''b'') # []
   \<and> rc (rploaderNext ld_fail 1 \<lparr>lk = 0, lfields = []\<rparr> (Feed RP_INDEX [Rec (named_doc 5 ''b'')])
          q0 blank) = RS_RESULT_OK
   \<and> res (rploaderNext ld_fail 1 \<lparr>lk = 0, lfields = []\<rparr> (Feed RP_INDEX [Rec (named_doc 5 ''b'')])
          q0 blank) = named_doc 5 ''b''
   \<and> rowdata (res (rploaderNext ld_fail 1 \<lparr>lk = 0, lfields = []\<rparr>
                      (Feed RP_INDEX [Rec (named_doc 5 ''b'')]) q0 blank))
       \<noteq> \<lparr>sv = None, dyn = None\<rparr>
   \<and> events (Feed RP_INDEX [Rec (doc 6 1)]) = Rec (doc 6 1) # []
   \<and> res (rploaderNext ld_title 1 \<lparr>lk = 0, lfields = []\<rparr> (Feed RP_INDEX [Rec (doc 6 1)])
          q0 blank) = (doc 6 1)\<lparr>rowdata := \<lparr>sv = None, dyn = Some [(''title'', ''t'')]\<rparr>\<rparr>"
  using C9_loader_returns_OK
      [of "Feed RP_INDEX [Rec (deleted_doc 4 1)]" "deleted_doc 4 1" "[]" ld_title 1
          "\<lparr>lk = 0, lfields = []\<rparr>" q0 blank]
    C9_loader_returns_OK
      [of "Feed RP_INDEX [Rec (doc 5 1)]" "doc 5 1" "[]" ld_fail 1
          "\<lparr>lk = 0, lfields = []\<rparr>" q0 blank]
    C9_loader_returns_OK
      [of "Feed RP_INDEX [Rec (named_doc 5 ''b'')]" "named_doc 5 ''b''" "[]" ld_fail 1
          "\<lparr>lk = 0, lfields = []\<rparr>" q0 blank]
    C9_loader_returns_OK
      [of "Feed RP_INDEX [Rec (doc 6 1)]" "doc 6 1" "[]" ld_title 1
          "\<lparr>lk = 0, lfields = []\<rparr>" q0 blank]
  by (simp add: deleted_doc_def doc_def named_doc_def ld_fail_def ld_title_def)

subsection \<open>C10: the quantile reducer's constructor\<close>

text \<open>
  C10: once the source key and the percentile \<open>p\<close> are read, the constructor returns
  \<open>NULL\<close> with an error recorded whenever \<open>p\<close> is not in \<open>[0, 1]\<close>, and whenever a further
  argument is there and is read as a resolution \<open>n\<close> outside \<open>[1, MAX_SAMPLE_SIZE]\<close>; and
  when no further argument is there, a reducer that is returned has resolution 500.
\<close>

theorem C10_quantile_new:
  assumes "ReducerOptions_GetKey env options = (Some k, o1)"
    and "AC_GetDouble env (ro_args o1) = Inr (p, a2)"
  shows "(\<not> (0 \<le> p \<and> p \<le> 1) \<longrightarrow>
            fst (RDCRQuantile_New env options) = None
            \<and> ro_status (snd (RDCRQuantile_New env options)) \<noteq> None)
       \<and> (0 \<le> p \<and> p \<le> 1 \<and> \<not> AC_IsAtEnd env a2 \<and> AC_GetUnsigned env a2 = Inr (n, a3)
            \<and> (n < 1 \<or> MAX_SAMPLE_SIZE env < n) \<longrightarrow>
            fst (RDCRQuantile_New env options) = None
            \<and> ro_status (snd (RDCRQuantile_New env options)) \<noteq> None)
       \<and> (AC_IsAtEnd env a2 \<and> fst (RDCRQuantile_New env options) = Some rd \<longrightarrow>
            resolution rd = 500 \<and> pct rd = p \<and> 0 \<le> p \<and> p \<le> 1)"
  using assms
  by (auto simp: RDCRQuantile_New_def quantile_finish_def QERR_MKBADARGS_FMT_def
      QueryError_SetError_def split: option.splits prod.splits bool.splits if_splits)

theorem C10_quantile_new_witness:
  "ReducerOptions_GetKey ex_env (ex_options [''@price'', ''1.5''])
     = (Some ''@price'', ex_options [''1.5''])
   \<and> AC_GetDouble ex_env (ro_args (ex_options [''1.5''])) = Inr (3 / 2, [])
   \<and> fst (RDCRQuantile_New ex_env (ex_options [''@price'', ''1.5''])) = None
   \<and> ro_status (snd (RDCRQuantile_New ex_env (ex_options [''@price'', ''1.5'']))) \<noteq> None
   \<and> ReducerOptions_GetKey ex_env (ex_options [''@price'', ''0.5'', ''5000''])
     = (Some ''@price'', ex_options [''0.5'', ''5000''])
   \<and> AC_GetDouble ex_env (ro_args (ex_options [''0.5'', ''5000''])) = Inr (1 / 2, [''5000''])
   \<and> AC_GetUnsigned ex_env [''5000''] = Inr (5000, [])
   \<and> fst (RDCRQuantile_New ex_env (ex_options [''@price'', ''0.5'', ''5000''])) = None
   \<and> ro_status (snd (RDCRQuantile_New ex_env (ex_options [''@price'', ''0.5'', ''5000'']))) \<noteq> None
   \<and> ReducerOptions_GetKey ex_env (ex_options [''@price'', ''0.5''])
     = (Some ''@price'', ex_options [''0.5''])
   \<and> AC_GetDouble ex_env (ro_args (ex_options [''0.5''])) = Inr (1 / 2, [])
   \<and> fst (RDCRQuantile_New ex_env (ex_options [''@price'', ''0.5'']))
     = Some \<lparr>srckey = ''@price'', pct = 1 / 2, resolution = 500\<rparr>"
proof -
  have k1: "ReducerOptions_GetKey ex_env (ex_options [''@price'', ''1.5''])
     = (Some ''@price'', ex_options [''1.5''])"
    and k2: "ReducerOptions_GetKey ex_env (ex_options [''@price'', ''0.5'', ''5000''])
     = (Some ''@price'', ex_options [''0.5'', ''5000''])"
    and k3: "ReducerOptions_GetKey ex_env (ex_options [''@price'', ''0.5''])
     = (Some ''@price'', ex_options [''0.5''])"
    by (simp_all add: ex_env_def ex_options_def)
  have d1: "AC_GetDouble ex_env (ro_args (ex_options [''1.5''])) = Inr (3 / 2, [])"
    and d2: "AC_GetDouble ex_env (ro_args (ex_options [''0.5'', ''5000''])) = Inr (1 / 2, [''5000''])"
    and d3: "AC_GetDouble ex_env (ro_args (ex_options [''0.5''])) = Inr (1 / 2, [])"
    by (simp_all add: ex_env_def ex_options_def ex_number_def)
  have u2: "AC_GetUnsigned ex_env [''5000''] = Inr (5000, [])"
    and e2: "\<not> AC_IsAtEnd ex_env [''5000'']" and e3: "AC_IsAtEnd ex_env []"
    and m: "MAX_SAMPLE_SIZE ex_env = 1000"
    by (simp_all add: ex_env_def ex_number_def)
  have ok3: "fst (RDCRQuantile_New ex_env (ex_options [''@price'', ''0.5'']))
     = Some \<lparr>srckey = ''@price'', pct = 1 / 2, resolution = 500\<rparr>"
    by (simp add: RDCRQuantile_New_def k3 d3 e3 quantile_finish_def)
      (simp add: ex_env_def ex_options_def)
  show ?thesis
    using C10_quantile_new [OF k1 d1, of 0 "[]" "\<lparr>srckey = ''@price'', pct = 1 / 2, resolution = 500\<rparr>"]
      C10_quantile_new [OF k2 d2, of 5000 "[]" "\<lparr>srckey = ''@price'', pct = 1 / 2, resolution = 500\<rparr>"]
      C10_quantile_new [OF k3 d3, of 0 "[]" "\<lparr>srckey = ''@price'', pct = 1 / 2, resolution = 500\<rparr>"]
    by (simp add: k1 k2 k3 d1 d2 d3 u2 e2 e3 m ok3)
qed

end
